theory Spec2Isabelle
  imports Complex_Main
begin

section \<open>JavaScript values used by \<open>src/utils/lodashReplacements.ts\<close>\<close>

text \<open>
  Numbers.  A JavaScript number is an IEEE double: \<open>NaN\<close>, the two infinities, or a finite
  value.  The helpers of the module only compare numbers, negate them, truncate them to an
  integer and take \<open>Math.min\<close>/\<open>Math.max\<close>; each of these is exact on doubles, so a finite
  double is modelled by the real number it denotes (\<open>+0\<close> and \<open>-0\<close> are one value: every
  operation used here treats them alike).
\<close>

datatype jsnum = NaN | NegInf | Fin real | PosInf

text \<open>The relational operators \<open><\<close>, \<open><=\<close>, \<open>>=\<close>: false as soon as an operand is \<open>NaN\<close>.\<close>

fun js_lt :: "jsnum \<Rightarrow> jsnum \<Rightarrow> bool" where
  "js_lt NaN _ = False"
| "js_lt _ NaN = False"
| "js_lt _ NegInf = False"
| "js_lt NegInf _ = True"
| "js_lt PosInf _ = False"
| "js_lt (Fin a) PosInf = True"
| "js_lt (Fin a) (Fin b) = (a < b)"

definition js_le :: "jsnum \<Rightarrow> jsnum \<Rightarrow> bool" where
  "js_le a b = (a \<noteq> NaN \<and> b \<noteq> NaN \<and> \<not> js_lt b a)"

definition js_ge :: "jsnum \<Rightarrow> jsnum \<Rightarrow> bool" where
  "js_ge a b = js_le b a"

text \<open>Unary minus.\<close>

fun js_neg :: "jsnum \<Rightarrow> jsnum" where
  "js_neg NaN = NaN"
| "js_neg NegInf = PosInf"
| "js_neg PosInf = NegInf"
| "js_neg (Fin a) = Fin (- a)"

text \<open>
  \<open>Math.min(...xs)\<close> and \<open>Math.max(...xs)\<close>: \<open>NaN\<close> as soon as an argument is \<open>NaN\<close>,
  \<open>+Infinity\<close> (resp. \<open>-Infinity\<close>) for no argument.
\<close>

definition min2 :: "jsnum \<Rightarrow> jsnum \<Rightarrow> jsnum" where
  "min2 a b = (if a = NaN \<or> b = NaN then NaN else if js_lt b a then b else a)"

definition max2 :: "jsnum \<Rightarrow> jsnum \<Rightarrow> jsnum" where
  "max2 a b = (if a = NaN \<or> b = NaN then NaN else if js_lt a b then b else a)"

definition Math_min :: "jsnum list \<Rightarrow> jsnum" where
  "Math_min xs = foldl min2 PosInf xs"

definition Math_max :: "jsnum list \<Rightarrow> jsnum" where
  "Math_max xs = foldl max2 NegInf xs"

text \<open>
  \<open>ToIntegerOrInfinity\<close> of ECMA-262: \<open>NaN\<close> becomes 0, the infinities stay, a finite
  number is truncated towards zero.
\<close>

datatype extint = MinusInf | Finite int | PlusInf

fun ToIntegerOrInfinity :: "jsnum \<Rightarrow> extint" where
  "ToIntegerOrInfinity NaN = Finite 0"
| "ToIntegerOrInfinity NegInf = MinusInf"
| "ToIntegerOrInfinity PosInf = PlusInf"
| "ToIntegerOrInfinity (Fin r) = Finite (if r < 0 then \<lceil>r\<rceil> else \<lfloor>r\<rfloor>)"


text \<open>The runtime errors: the two a primitive of the language raises here, and any other
  exception, thrown by a getter or a callback.\<close>

datatype error = TypeError | RangeError | Thrown

text \<open>
  Values.  A property is a data property holding a value, or an accessor whose getter
  returns a value or raises.  An object carries its own string-keyed properties in creation
  order, each with its \<open>enumerable\<close> flag; \<open>Map\<close>, \<open>Set\<close> and \<open>Date\<close> instances carry their
  internal contents beside their own properties.  Strings are byte lists; symbols, bigints
  and proxies are outside the model.
\<close>

datatype 'v slot = Data 'v | Getter "error + 'v"

datatype jsval =
    Undefined
  | Null
  | Bool bool
  | Num jsnum
  | Str string
  | Arr "jsval list"
  | Obj "(string \<times> bool \<times> jsval slot) list"
  | MapObj "(jsval \<times> jsval) list" "(string \<times> bool \<times> jsval slot) list"
  | SetObj "jsval list" "(string \<times> bool \<times> jsval slot) list"
  | DateObj jsnum "(string \<times> bool \<times> jsval slot) list"
  | Func "(string \<times> bool \<times> jsval slot) list"

type_synonym props = "(string \<times> bool \<times> jsval slot) list"

text \<open>
  The realm a helper runs in: what the prototype chain of a value holds under a name (a
  data property or an accessor), the enumerable names it holds, whether \<open>Date.prototype\<close> is
  on it, and the two limits ECMA-262 leaves to the engine, the longest argument list of a
  call and the longest array it can build.  Every property below is proved for every realm.
\<close>

record realm =
  inherited :: "jsval \<Rightarrow> string \<Rightarrow> jsval slot option"
  inherited_enumerable :: "jsval \<Rightarrow> string list"
  inherits_Date :: "jsval \<Rightarrow> bool"
  max_arguments :: nat
  max_array_length :: nat

text \<open>\<open>value == null\<close>: true of \<open>null\<close> and \<open>undefined\<close> only.\<close>

fun eq_null :: "jsval \<Rightarrow> bool" where
  "eq_null Undefined = True"
| "eq_null Null = True"
| "eq_null _ = False"

fun typeof :: "jsval \<Rightarrow> string" where
  "typeof Undefined = ''undefined''"
| "typeof Null = ''object''"
| "typeof (Bool _) = ''boolean''"
| "typeof (Num _) = ''number''"
| "typeof (Str _) = ''string''"
| "typeof (Func _) = ''function''"
| "typeof _ = ''object''"

fun Array_isArray :: "jsval \<Rightarrow> bool" where
  "Array_isArray (Arr _) = True"
| "Array_isArray _ = False"

text \<open>Decimal numerals, the names of array indices.\<close>

fun digit :: "nat \<Rightarrow> char" where
  "digit n = ''0123456789'' ! n"

fun dec :: "nat \<Rightarrow> string" where
  "dec n = (if n < 10 then [digit n] else dec (n div 10) @ [digit (n mod 10)])"

declare dec.simps [simp del]

text \<open>The own properties of a value that is not \<open>null\<close> or \<open>undefined\<close>.\<close>

fun own_props :: "jsval \<Rightarrow> props" where
  "own_props (Obj ps) = ps"
| "own_props (MapObj _ ps) = ps"
| "own_props (SetObj _ ps) = ps"
| "own_props (DateObj _ ps) = ps"
| "own_props (Func ps) = ps"
| "own_props (Arr xs) =
     map (\<lambda>i. (dec i, True, Data (xs ! i))) [0..<length xs]
       @ [(''length'', False, Data (Num (Fin (real (length xs)))))]"
| "own_props (Str s) =
     map (\<lambda>i. (dec i, True, Data (Str [s ! i]))) [0..<length s]
       @ [(''length'', False, Data (Num (Fin (real (length s)))))]"
| "own_props _ = []"

text \<open>
  \<open>Object.keys(value)\<close>: the names of the own enumerable properties; a \<open>TypeError\<close> on
  \<open>null\<close> and \<open>undefined\<close>.
\<close>

definition own_enumerable_keys :: "jsval \<Rightarrow> string list" where
  "own_enumerable_keys v = map fst (filter (\<lambda>(k, e, x). e) (own_props v))"

definition Object_keys :: "jsval \<Rightarrow> error + string list" where
  "Object_keys v = (if eq_null v then Inl TypeError else Inr (own_enumerable_keys v))"

text \<open>
  \<open>value[key]\<close>, a full property read: a \<open>TypeError\<close> on \<open>null\<close> and \<open>undefined\<close>; else the
  own property of that name, or failing that the one on the prototype chain, read as a
  value or by running its getter, which may raise; \<open>undefined\<close> when there is none.
\<close>

fun read_slot :: "jsval slot \<Rightarrow> error + jsval" where
  "read_slot (Data x) = Inr x"
| "read_slot (Getter r) = r"

definition prop_get :: "realm \<Rightarrow> jsval \<Rightarrow> string \<Rightarrow> error + jsval" where
  "prop_get rl v key =
     (if eq_null v then Inl TypeError
      else case map_of (own_props v) key of
             Some (e, s) \<Rightarrow> read_slot s
           | None \<Rightarrow>
               (case inherited rl v key of
                  None \<Rightarrow> Inr Undefined
                | Some s \<Rightarrow> read_slot s))"

text \<open>\<open>value === n\<close> for a number literal \<open>n\<close>: strict equality, never true of \<open>NaN\<close>.\<close>

fun strict_eq_num :: "jsval \<Rightarrow> jsnum \<Rightarrow> bool" where
  "strict_eq_num (Num a) n = (a \<noteq> NaN \<and> n \<noteq> NaN \<and> a = n)"
| "strict_eq_num _ n = False"


section \<open>The helpers\<close>

text \<open>
  Every helper returns an outcome: \<open>Inr\<close> its value, or \<open>Inl\<close> the exception it raised.  A
  callback handed to a helper is a function to outcomes as well.
\<close>

subsection \<open>\<open>isEmpty\<close>\<close>

definition isEmpty :: "realm \<Rightarrow> jsval \<Rightarrow> error + bool" where
  "isEmpty rl v =
     (if eq_null v then Inr True
      else if Array_isArray v \<or> typeof v = ''string'' then
        (case prop_get rl v ''length'' of
           Inl e \<Rightarrow> Inl e
         | Inr l \<Rightarrow> Inr (strict_eq_num l (Fin 0)))
      else if typeof v = ''object'' then
        (case Object_keys v of Inl e \<Rightarrow> Inl e | Inr ks \<Rightarrow> Inr (length ks = 0))
      else Inr False)"

subsection \<open>\<open>inRange\<close>\<close>

definition inRange :: "jsnum \<Rightarrow> jsnum \<Rightarrow> jsnum option \<Rightarrow> error + bool" where
  "inRange v start end =
     (let (start, end) = (case end of None \<Rightarrow> (Fin 0, start) | Some e \<Rightarrow> (start, e))
      in Inr (js_ge v (Math_min [start, end]) \<and> js_lt v (Math_max [start, end])))"

subsection \<open>\<open>dropRight\<close>\<close>

text \<open>
  \<open>array.slice(start, end)\<close> of ECMA-262: a negative relative index counts from the end,
  and both indices are clamped to \<open>0 .. length\<close>.
\<close>

fun clamp_index :: "nat \<Rightarrow> extint \<Rightarrow> nat" where
  "clamp_index len MinusInf = 0"
| "clamp_index len PlusInf = len"
| "clamp_index len (Finite i) = (if i < 0 then nat (max (int len + i) 0) else nat (min i (int len)))"

definition slice :: "'a list \<Rightarrow> jsnum \<Rightarrow> jsnum \<Rightarrow> 'a list" where
  "slice xs start end =
     (let k = clamp_index (length xs) (ToIntegerOrInfinity start);
          final = clamp_index (length xs) (ToIntegerOrInfinity end)
      in take (final - k) (drop k xs))"

definition dropRight :: "'a list \<Rightarrow> jsnum option \<Rightarrow> error + 'a list" where
  "dropRight array n =
     (let n = (case n of None \<Rightarrow> Fin 1 | Some k \<Rightarrow> k)
      in if js_ge n (Fin (real (length array))) then Inr []
         else Inr (slice array (Fin 0) (js_neg n)))"

subsection \<open>\<open>get\<close>\<close>

text \<open>\<open>path.split('.')\<close>: the pieces between the dots; the empty string gives one empty piece.\<close>

fun split :: "char \<Rightarrow> string \<Rightarrow> string list" where
  "split c [] = [[]]"
| "split c (x # xs) =
     (if x = c then [] # split c xs
      else case split c xs of [] \<Rightarrow> [[x]] | w # ws \<Rightarrow> (x # w) # ws)"

datatype path = PathString string | PathArray "string list"

fun path_keys :: "path \<Rightarrow> string list" where
  "path_keys (PathArray ks) = ks"
| "path_keys (PathString s) = split CHR ''.'' s"

text \<open>
  The \<open>for (const key of keys)\<close> loop and the final \<open>result ?? defaultValue\<close>.  An omitted
  \<open>defaultValue\<close> is \<open>undefined\<close>.
\<close>

fun get_loop :: "realm \<Rightarrow> jsval \<Rightarrow> string list \<Rightarrow> jsval \<Rightarrow> error + jsval" where
  "get_loop rl result [] defaultValue = Inr (if eq_null result then defaultValue else result)"
| "get_loop rl result (key # keys) defaultValue =
     (if eq_null result then Inr defaultValue
      else case prop_get rl result key of
             Inl e \<Rightarrow> Inl e
           | Inr r \<Rightarrow> get_loop rl r keys defaultValue)"

definition get :: "realm \<Rightarrow> jsval \<Rightarrow> path \<Rightarrow> jsval \<Rightarrow> error + jsval" where
  "get rl obj path defaultValue = get_loop rl obj (path_keys path) defaultValue"

subsection \<open>\<open>first\<close>, \<open>times\<close>, \<open>flatten\<close>, \<open>min\<close>\<close>





subsection \<open>\<open>findIndex\<close>, \<open>filter\<close>, \<open>map\<close>, \<open>some\<close>, \<open>includes\<close>\<close>








subsection \<open>\<open>pickBy\<close>\<close>







subsection \<open>The type predicates\<close>









section \<open>The timing wrappers\<close>

text \<open>
  The options object \<open>{leading?, trailing?}\<close>: \<open>None\<close> is an absent (\<open>undefined\<close>) field; the
  default \<open>options = {}\<close> has both absent.  \<open>nullish_or\<close> is the \<open>??\<close> operator, and also the
  default \<open>wait = 0\<close> of an absent parameter.  Durations are whole milliseconds.
\<close>

record options =
  leading :: "bool option"
  trailing :: "bool option"

definition nullish_or :: "'a option \<Rightarrow> 'a \<Rightarrow> 'a" where
  "nullish_or x d = (case x of None \<Rightarrow> d | Some v \<Rightarrow> v)"

subsection \<open>\<open>throttle\<close>\<close>

text \<open>
  The options object handed to the rate limiter of package \<open>just-throttle\<close>.  The limiter
  itself is imported by the module; it is the parameter \<open>justThrottle\<close>.
\<close>

record limiter_options =
  lim_leading :: bool
  lim_trailing :: bool

definition throttle ::
  "('f \<Rightarrow> nat \<Rightarrow> limiter_options \<Rightarrow> 'g) \<Rightarrow> 'f \<Rightarrow> nat option \<Rightarrow> options \<Rightarrow> 'g" where
  "throttle justThrottle func wait options =
     justThrottle func (nullish_or wait 0)
       \<lparr>lim_leading = nullish_or (leading options) True,
        lim_trailing = nullish_or (trailing options) True\<rparr>"

subsection \<open>\<open>debounce\<close>\<close>

text \<open>
  \<open>options.leading === true\<close> becomes the third argument of the engine of package
  \<open>just-debounce-it\<close>, the parameter \<open>justDebounce\<close>; \<open>options.trailing\<close> is not read.
\<close>

definition debounce ::
  "('f \<Rightarrow> nat \<Rightarrow> bool \<Rightarrow> 'g) \<Rightarrow> 'f \<Rightarrow> nat option \<Rightarrow> options \<Rightarrow> 'g" where
  "debounce justDebounce func wait options =
     (let immediate = (leading options = Some True)
      in justDebounce func (nullish_or wait 0) immediate)"

subsection \<open>The debounce engine, from the specification\<close>

text \<open>
  Modelled from the spec: the data of the engine of package \<open>just-debounce-it\<close>, which the
  module imports and which is not under \<open>src/\<close>.  Section 3: the invocation policy of a
  wrapper is the wrapped function, \<open>wait\<close>, \<open>leading\<close> and \<open>trailing\<close>; the wrapper state is the
  deadline of the pending delay timer, if one is pending, and the buffered arguments of the
  most recent call.  A fresh wrapper is idle.
\<close>

record ('f) policy =
  p_func :: 'f
  p_wait :: nat
  p_leading :: bool
  p_trailing :: bool

record 'a wrapper_state =
  timer :: "nat option"
  buffered :: "'a option"

definition idle :: "'a wrapper_state" where
  "idle = \<lparr>timer = None, buffered = None\<rparr>"

text \<open>
  Modelled from the spec: the engine \<open>justDebounce(func, wait, immediate)\<close> of package
  \<open>just-debounce-it\<close>, which the module imports and which is not under \<open>src/\<close>.  Section 4.1:
  the wrapper it returns has policy \<open>wait\<close> and \<open>leading = immediate\<close>.  The module never passes
  a \<open>trailing\<close> flag, so the engine's trailing posture is the parameter \<open>posture\<close>.
\<close>

definition justDebounce :: "bool \<Rightarrow> 'f \<Rightarrow> nat \<Rightarrow> bool \<Rightarrow> 'f policy" where
  "justDebounce posture func wait immediate =
     \<lparr>p_func = func, p_wait = wait, p_leading = immediate, p_trailing = posture\<rparr>"

text \<open>
  Modelled from the spec: the delay timer of the engine (not under \<open>src/\<close>).  Section 4.1: if
  the timer elapses without an intervening call and \<open>trailing\<close> is true, \<open>f\<close> is invoked once
  with the arguments from the most recent call.  An invocation of \<open>f\<close> is logged as the pair of
  its time and its arguments.  A timer with deadline \<open>d\<close> has elapsed at every time \<open>now \<ge> d\<close>.
\<close>

definition elapse ::
  "'f policy \<Rightarrow> nat \<Rightarrow> 'a wrapper_state \<Rightarrow> (nat \<times> 'a) list \<times> 'a wrapper_state" where
  "elapse g now s =
     (case timer s of
        None \<Rightarrow> ([], s)
      | Some d \<Rightarrow>
          if now < d then ([], s)
          else ((if p_trailing g
                 then (case buffered s of None \<Rightarrow> [] | Some a \<Rightarrow> [(d, a)])
                 else []),
                idle))"

text \<open>
  Modelled from the spec: a call \<open>g(a)\<close> at time \<open>t\<close> (engine not under \<open>src/\<close>).  Section 4.1:
  calling \<open>g\<close> resets a pending delay timer of length \<open>wait\<close>; if \<open>leading\<close> is true and no timer
  is currently pending, \<open>f\<close> is invoked immediately with the current call's arguments, and a
  timer is still started.
\<close>

definition call ::
  "'f policy \<Rightarrow> nat \<Rightarrow> 'a \<Rightarrow> 'a wrapper_state \<Rightarrow> (nat \<times> 'a) list \<times> 'a wrapper_state" where
  "call g t a s =
     (let (fired, s1) = elapse g t s;
          lead = (if p_leading g \<and> timer s1 = None then [(t, a)] else [])
      in (fired @ lead, \<lparr>timer = Some (t + p_wait g), buffered = Some a\<rparr>))"

text \<open>
  Modelled from the spec: the life of a wrapper of the engine (not under \<open>src/\<close>).  Section 5:
  calls arrive one after the other, each with its time and arguments, and the timer alone
  defers work.  A trace of calls is run from a state; then the wrapper is left alone until
  its timer has elapsed.  \<open>invocations\<close> is the log of a whole trace from the idle state.
\<close>

fun run ::
  "'f policy \<Rightarrow> (nat \<times> 'a) list \<Rightarrow> 'a wrapper_state \<Rightarrow> (nat \<times> 'a) list \<times> 'a wrapper_state" where
  "run g [] s = ([], s)"
| "run g ((t, a) # cs) s =
     (let (out1, s1) = call g t a s;
          (out2, s2) = run g cs s1
      in (out1 @ out2, s2))"

definition settle ::
  "'f policy \<Rightarrow> 'a wrapper_state \<Rightarrow> (nat \<times> 'a) list \<times> 'a wrapper_state" where
  "settle g s = (case timer s of None \<Rightarrow> ([], s) | Some d \<Rightarrow> elapse g d s)"

definition invocations_from ::
  "'f policy \<Rightarrow> (nat \<times> 'a) list \<Rightarrow> 'a wrapper_state \<Rightarrow> (nat \<times> 'a) list" where
  "invocations_from g cs s =
     (let (out1, s1) = run g cs s;
          (out2, s2) = settle g s1
      in out1 @ out2)"

definition invocations :: "'f policy \<Rightarrow> (nat \<times> 'a) list \<Rightarrow> (nat \<times> 'a) list" where
  "invocations g cs = invocations_from g cs idle"

text \<open>
  Modelled from the spec: the vocabulary of section 4.1 for the engine (not under \<open>src/\<close>).
  The settling periods of a trace of call times: a call less than \<open>wait\<close> after the previous
  one continues its burst, any other call starts a new burst, and each burst settles once.
\<close>

fun settlings :: "nat \<Rightarrow> nat list \<Rightarrow> nat" where
  "settlings w [] = 0"
| "settlings w [t] = 1"
| "settlings w (t # u # ts) = (if u < t + w then 0 else 1) + settlings w (u # ts)"

text \<open>Modelled from the spec: a burst is a run of calls spaced less than \<open>wait\<close> apart.\<close>

fun burst :: "nat \<Rightarrow> nat list \<Rightarrow> bool" where
  "burst w [] = True"
| "burst w [t] = True"
| "burst w (t # u # ts) = (t \<le> u \<and> u < t + w \<and> burst w (u # ts))"


section \<open>Path resolution\<close>

text \<open>
  What a path resolves to in an object, by the chain of property reads: a read raised, or a
  segment is absent (a \<open>null\<close> or \<open>undefined\<close> stands where a key is still to be read), or
  the value at the end of the path.
\<close>

datatype resolution = Raised error | Absent | Value jsval

fun resolve :: "realm \<Rightarrow> jsval \<Rightarrow> string list \<Rightarrow> resolution" where
  "resolve rl v [] = Value v"
| "resolve rl v (key # keys) =
     (if eq_null v then Absent
      else case prop_get rl v key of Inl e \<Rightarrow> Raised e | Inr r \<Rightarrow> resolve rl r keys)"

section \<open>A realm for the examples\<close>

text \<open>
  The members of the built-in prototypes that the examples below read: a plain object
  inherits \<open>constructor\<close>, the function \<open>Object\<close>; a function inherits the accessors \<open>caller\<close>
  and \<open>arguments\<close> of \<open>Function.prototype\<close>, whose getter raises a \<open>TypeError\<close> on a built-in
  function; no inherited property is enumerable; \<open>Date\<close> instances inherit from
  \<open>Date.prototype\<close>.  Both engine limits are \<open>2^32 - 1\<close>.
\<close>

definition Object_constructor :: jsval where
  "Object_constructor =
     Func [(''length'', False, Data (Num (Fin 1))), (''name'', False, Data (Str ''Object''))]"

fun builtin_member :: "jsval \<Rightarrow> string \<Rightarrow> jsval slot option" where
  "builtin_member (Obj ps) key =
     (if key = ''constructor'' then Some (Data Object_constructor) else None)"
| "builtin_member (Func ps) key =
     (if key = ''caller'' \<or> key = ''arguments'' then Some (Getter (Inl TypeError)) else None)"
| "builtin_member v key = None"

fun is_Date_instance :: "jsval \<Rightarrow> bool" where
  "is_Date_instance (DateObj t ps) = True"
| "is_Date_instance v = False"

definition builtins :: realm where
  "builtins =
     \<lparr>inherited = builtin_member,
      inherited_enumerable = (\<lambda>v. []),
      inherits_Date = is_Date_instance,
      max_arguments = 2 ^ 32 - 1,
      max_array_length = 2 ^ 32 - 1\<rparr>"




section \<open>Properties of \<open>get\<close>\<close>

lemma get_loop_resolve:
  "get_loop rl r keys d =
     (case resolve rl r keys of
        Raised e \<Rightarrow> Inl e
      | Absent \<Rightarrow> Inr d
      | Value v \<Rightarrow> Inr (if eq_null v then d else v))"
proof (induction keys arbitrary: r)
  case Nil
  show ?case by simp
next
  case (Cons key keys)
  show ?case
  proof (cases "eq_null r")
    case True
    then show ?thesis by simp
  next
    case False
    show ?thesis
    proof (cases "prop_get rl r key")
      case (Inl e)
      with False show ?thesis by simp
    next
      case (Inr x)
      with False Cons.IH [of x] show ?thesis by simp
    qed
  qed
qed

lemma resolve_Raised:
  "resolve rl r keys = Raised e \<Longrightarrow> \<exists>v key. \<not> eq_null v \<and> prop_get rl v key = Inl e"
proof (induction keys arbitrary: r)
  case Nil
  then show ?case by simp
next
  case (Cons key keys)
  show ?case
  proof (cases "eq_null r")
    case True
    with Cons.prems show ?thesis by simp
  next
    case False
    show ?thesis
    proof (cases "prop_get rl r key")
      case (Inl e')
      with False Cons.prems have "prop_get rl r key = Inl e" by simp
      with False show ?thesis by blast
    next
      case (Inr x)
      with False Cons.prems have "resolve rl x keys = Raised e" by simp
      then show ?thesis by (rule Cons.IH)
    qed
  qed
qed

lemma get_raises_iff: "(get rl obj path d = Inl e) = (resolve rl obj (path_keys path) = Raised e)"
  by (simp add: get_def get_loop_resolve split: resolution.splits)

lemma own_read:
  "\<not> eq_null v \<Longrightarrow> map_of (own_props v) key = Some (en, Data x) \<Longrightarrow> prop_get rl v key = Inr x"
  by (simp add: prop_get_def)

lemma missing_read:
  "\<not> eq_null v \<Longrightarrow> map_of (own_props v) key = None \<Longrightarrow> inherited rl v key = None
   \<Longrightarrow> prop_get rl v key = Inr Undefined"
  by (simp add: prop_get_def)

text \<open>
  Claim C4, as amended.  \<open>get\<close> raises only when a property read on a value that is not
  \<open>null\<close> or \<open>undefined\<close> raises, that is, when the path runs into an accessor whose getter
  raises; it never raises by reading a property of \<open>null\<close> or \<open>undefined\<close>: whenever a path
  segment is absent it returns the caller's default.  \<open>get({a: {b: 1}}, "a.b")\<close> is 1; and
  where \<open>{}\<close> has no property \<open>a\<close>, \<open>get({}, "a.b", 0)\<close> is 0 and \<open>get({}, ["a", "b"])\<close> with no
  default is \<open>undefined\<close>.
\<close>

theorem get_default_when_absent:
  "(get rl obj path d = Inl e
      \<longrightarrow> resolve rl obj (path_keys path) = Raised e
          \<and> (\<exists>v key. \<not> eq_null v \<and> prop_get rl v key = Inl e))
   \<and> (resolve rl obj (path_keys path) \<noteq> Raised e \<longrightarrow> get rl obj path d \<noteq> Inl e)
   \<and> (resolve rl obj (path_keys path) = Absent \<longrightarrow> get rl obj path d = Inr d)
   \<and> get rl (Obj [(''a'', True, Data (Obj [(''b'', True, Data (Num (Fin 1)))]))])
        (PathString ''a.b'') Undefined = Inr (Num (Fin 1))
   \<and> (inherited rl (Obj []) ''a'' = None
        \<longrightarrow> get rl (Obj []) (PathString ''a.b'') (Num (Fin 0)) = Inr (Num (Fin 0))
            \<and> get rl (Obj []) (PathArray [''a'', ''b'']) Undefined = Inr Undefined)"
proof -
  have a: "get rl obj path d = Inl e
      \<longrightarrow> resolve rl obj (path_keys path) = Raised e
          \<and> (\<exists>v key. \<not> eq_null v \<and> prop_get rl v key = Inl e)"
    using resolve_Raised [of rl obj "path_keys path" e] by (simp add: get_raises_iff)
  have b: "resolve rl obj (path_keys path) \<noteq> Raised e \<longrightarrow> get rl obj path d \<noteq> Inl e"
    by (simp add: get_raises_iff)
  have c: "resolve rl obj (path_keys path) = Absent \<longrightarrow> get rl obj path d = Inr d"
    by (simp add: get_def get_loop_resolve)
  have d: "get rl (Obj [(''a'', True, Data (Obj [(''b'', True, Data (Num (Fin 1)))]))])
        (PathString ''a.b'') Undefined = Inr (Num (Fin 1))"
    by (simp add: get_def own_read)
  have f: "inherited rl (Obj []) ''a'' = None
        \<longrightarrow> get rl (Obj []) (PathString ''a.b'') (Num (Fin 0)) = Inr (Num (Fin 0))
            \<and> get rl (Obj []) (PathArray [''a'', ''b'']) Undefined = Inr Undefined"
    by (simp add: get_def missing_read)
  from a b c d f show ?thesis by blast
qed

lemma get_constructor_caller:
  "get builtins (Obj []) (PathString ''constructor.caller'') (Str ''d'') = Inl TypeError"
  by (simp add: get_def prop_get_def builtins_def Object_constructor_def)

theorem get_default_when_absent_witness:
  "get builtins (Obj []) (PathString ''constructor.caller'') (Str ''d'') = Inl TypeError
   \<and> resolve builtins (Obj []) (path_keys (PathString ''constructor.caller'')) = Raised TypeError
   \<and> (\<exists>v key. \<not> eq_null v \<and> prop_get builtins v key = Inl TypeError)
   \<and> resolve builtins (Obj []) (path_keys (PathString ''a.b'')) = Absent
   \<and> inherited builtins (Obj []) ''a'' = None
   \<and> get builtins (Obj []) (PathString ''a.b'') (Num (Fin 0)) = Inr (Num (Fin 0))"
proof -
  have r: "resolve builtins (Obj []) (path_keys (PathString ''a.b'')) = Absent"
    by (simp add: prop_get_def builtins_def)
  have i: "inherited builtins (Obj []) ''a'' = None"
    by (simp add: builtins_def)
  from r i get_constructor_caller
    get_default_when_absent [of builtins "Obj []" "PathString ''constructor.caller''" "Str ''d''"
      TypeError]
    get_default_when_absent [of builtins "Obj []" "PathString ''a.b''" "Num (Fin 0)" TypeError]
  show ?thesis by blast
qed

text \<open>
  Claim C4 as stated fails: \<open>get({}, "constructor.caller", "d")\<close> raises a \<open>TypeError\<close>.  The
  read of \<open>constructor\<close> gives the inherited function \<open>Object\<close>, and reading \<open>caller\<close> of it runs
  the accessor of \<open>Function.prototype\<close>, which raises.
\<close>

theorem get_raises_counterexample:
  "get builtins (Obj []) (PathString ''constructor.caller'') (Str ''d'') = Inl TypeError"
  by (simp add: get_def prop_get_def builtins_def Object_constructor_def)

text \<open>
  Claim C9.  When the full path resolves to \<open>null\<close> (or to \<open>undefined\<close>), \<open>get\<close> returns the
  default and not the resolved value: the default also replaces a final \<open>null\<close>.
\<close>

theorem get_null_gives_default:
  "resolve rl obj (path_keys path) = Value Null \<or> resolve rl obj (path_keys path) = Value Undefined
   \<Longrightarrow> get rl obj path d = Inr d"
  by (auto simp add: get_def get_loop_resolve)

theorem get_null_gives_default_witness:
  "resolve builtins (Obj [(''a'', True, Data Null)]) (path_keys (PathString ''a'')) = Value Null
   \<and> get builtins (Obj [(''a'', True, Data Null)]) (PathString ''a'') (Num (Fin 5))
       = Inr (Num (Fin 5))"
proof -
  have r: "resolve builtins (Obj [(''a'', True, Data Null)]) (path_keys (PathString ''a''))
      = Value Null"
    by (simp add: prop_get_def)
  from r get_null_gives_default [of builtins "Obj [(''a'', True, Data Null)]" "PathString ''a''"
      "Num (Fin 5)"]
  show ?thesis by blast
qed

section \<open>Properties of \<open>inRange\<close> and \<open>dropRight\<close>\<close>

text \<open>
  Claim C10.  With \<open>end\<close> supplied, \<open>inRange(value, start, end)\<close> equals
  \<open>inRange(value, end, start)\<close>: swapping the bounds changes nothing, and the test is
  \<open>min(start, end) <= value < max(start, end)\<close>.  This holds for every number, \<open>NaN\<close> and the
  infinities included.
\<close>

theorem inRange_swap:
  "inRange v start (Some e) = inRange v e (Some start)
   \<and> inRange v start (Some e) = Inr (js_le (min2 start e) v \<and> js_lt v (max2 start e))"
  by (cases v; cases start; cases e)
     (auto simp: inRange_def Math_min_def Math_max_def min2_def max2_def js_ge_def js_le_def)

theorem inRange_swap_witness:
  "inRange (Fin 3) (Fin 5) (Some (Fin 1)) = inRange (Fin 3) (Fin 1) (Some (Fin 5))
   \<and> inRange (Fin 3) (Fin 5) (Some (Fin 1)) = Inr True"
proof -
  have "inRange (Fin 3) (Fin 5) (Some (Fin 1)) = Inr True"
    by (simp add: inRange_def Math_min_def Math_max_def min2_def max2_def js_ge_def js_le_def)
  with inRange_swap [of "Fin 3" "Fin 5" "Fin 1"] show ?thesis by blast
qed

text \<open>
  Claim C8.  \<open>dropRight(array, 0)\<close> is the empty array for every array, non-empty ones
  included, because the slice's upper bound \<open>-0\<close> is 0; with the default \<open>n = 1\<close>,
  \<open>dropRight\<close> removes exactly the last element.
\<close>

theorem dropRight_zero_and_default:
  "dropRight (xs :: 'a list) (Some (Fin 0)) = Inr []
   \<and> dropRight xs None = Inr (butlast xs)
   \<and> dropRight ((ys :: 'a list) @ [y]) None = Inr ys"
proof -
  have a: "dropRight xs (Some (Fin 0)) = Inr []"
    by (simp add: dropRight_def slice_def Let_def)
  have b: "dropRight zs None = Inr (butlast zs)" for zs :: "'a list"
  proof (cases "length zs \<le> 1")
    case True
    then have "zs = [] \<or> (\<exists>z. zs = [z])"
      by (cases zs) auto
    then show ?thesis
      by (auto simp: dropRight_def js_ge_def js_le_def Let_def)
  next
    case False
    have c: "\<lceil>- 1 :: real\<rceil> = - 1"
      by (simp add: ceiling_minus)
    from False have "nat (max (int (length zs) + - 1) 0) = length zs - 1"
      by simp
    with False show ?thesis
      by (simp add: dropRight_def js_ge_def js_le_def slice_def butlast_conv_take c Let_def)
  qed
  from a b [of xs] b [of "ys @ [y]"] show ?thesis by simp
qed

theorem dropRight_zero_and_default_witness:
  "dropRight [1, 2, 3 :: nat] (Some (Fin 0)) = Inr []
   \<and> dropRight [1, 2, 3 :: nat] None = Inr [1, 2]"
  using dropRight_zero_and_default [of "[1, 2, 3 :: nat]" "[1, 2 :: nat]" 3]
  by simp

section \<open>Properties of \<open>isEmpty\<close>\<close>

lemma digit_range: "n < 10 \<Longrightarrow> digit n \<in> set ''0123456789''"
proof -
  assume "n < 10"
  then have "n < length ''0123456789''" by simp
  then have "''0123456789'' ! n \<in> set ''0123456789''" by (rule nth_mem)
  then show ?thesis by (simp only: digit.simps)
qed

lemma dec_digits: "set (dec n) \<subseteq> set ''0123456789''"
proof (induction n rule: dec.induct)
  case (1 n)
  show ?case
  proof (cases "n < 10")
    case True
    then show ?thesis
      using digit_range [of n] by (subst dec.simps) simp
  next
    case False
    have "n mod 10 < 10" by simp
    then have "digit (n mod 10) \<in> set ''0123456789''" by (rule digit_range)
    with False "1.IH" show ?thesis
      by (subst dec.simps) simp
  qed
qed

lemma dec_not_length: "dec i \<noteq> ''length''"
proof
  assume "dec i = ''length''"
  then have "CHR ''l'' \<in> set (dec i)" by simp
  with dec_digits [of i] show False by auto
qed

lemma map_of_indices_length:
  "map_of (map (\<lambda>i. (dec i, f i)) [0..<n] @ [(''length'', z)]) ''length'' = Some z"
proof -
  have "''length'' \<noteq> dec i" for i
    using dec_not_length [of i] by (rule not_sym)
  then have "''length'' \<notin> fst ` set (map (\<lambda>i. (dec i, f i)) [0..<n])"
    by (auto simp: image_iff)
  then have "map_of (map (\<lambda>i. (dec i, f i)) [0..<n]) ''length'' = None"
    by (simp add: map_of_eq_None_iff)
  then show ?thesis by (simp add: map_add_def)
qed

lemma length_Arr: "prop_get rl (Arr xs) ''length'' = Inr (Num (Fin (real (length xs))))"
  by (simp add: prop_get_def map_of_indices_length del: map_of_append)

lemma length_Str: "prop_get rl (Str s) ''length'' = Inr (Num (Fin (real (length s))))"
  by (simp add: prop_get_def map_of_indices_length del: map_of_append)

lemma isEmpty_Arr: "isEmpty rl (Arr xs) = Inr (xs = [])"
  by (simp add: isEmpty_def length_Arr)

lemma isEmpty_Str: "isEmpty rl (Str s) = Inr (s = [])"
  by (simp add: isEmpty_def length_Str)

lemma isEmpty_object:
  "typeof v = ''object'' \<Longrightarrow> \<not> eq_null v \<Longrightarrow> \<not> Array_isArray v
   \<Longrightarrow> isEmpty rl v = Inr (own_enumerable_keys v = [])"
  by (simp add: isEmpty_def Object_keys_def)

text \<open>
  Claim C5.  \<open>isEmpty\<close> is true of the empty array, the empty object, the empty string,
  \<open>null\<close> and \<open>undefined\<close>; it is false of every non-empty array, of every object with at
  least one enumerable own key, and of every non-empty string.
\<close>

theorem isEmpty_cases:
  "isEmpty rl (Arr []) = Inr True
   \<and> isEmpty rl (Obj []) = Inr True
   \<and> isEmpty rl (Str '''') = Inr True
   \<and> isEmpty rl Null = Inr True
   \<and> isEmpty rl Undefined = Inr True
   \<and> (xs \<noteq> [] \<longrightarrow> isEmpty rl (Arr xs) = Inr False)
   \<and> ((k, True, x) \<in> set ps \<longrightarrow> isEmpty rl (Obj ps) = Inr False)
   \<and> (s \<noteq> '''' \<longrightarrow> isEmpty rl (Str s) = Inr False)"
proof -
  have obj: "isEmpty rl (Obj qs) = Inr (own_enumerable_keys (Obj qs) = [])" for qs
    by (rule isEmpty_object) simp_all
  have "(k, True, x) \<in> set ps \<longrightarrow> own_enumerable_keys (Obj ps) \<noteq> []"
    by (auto simp: own_enumerable_keys_def filter_empty_conv)
  with obj [of ps] have "(k, True, x) \<in> set ps \<longrightarrow> isEmpty rl (Obj ps) = Inr False"
    by simp
  moreover have "isEmpty rl (Obj []) = Inr True"
    using obj [of "[]"] by (simp add: own_enumerable_keys_def)
  moreover have "isEmpty rl Null = Inr True" "isEmpty rl Undefined = Inr True"
    by (simp_all add: isEmpty_def)
  ultimately show ?thesis
    by (simp add: isEmpty_Arr isEmpty_Str)
qed

theorem isEmpty_cases_witness:
  "[Null] \<noteq> [] \<and> isEmpty builtins (Arr [Null]) = Inr False
   \<and> (''a'', True, Data Null) \<in> set [(''z'', False, Data Null), (''a'', True, Data Null)]
   \<and> isEmpty builtins (Obj [(''z'', False, Data Null), (''a'', True, Data Null)]) = Inr False
   \<and> ''x'' \<noteq> '''' \<and> isEmpty builtins (Str ''x'') = Inr False"
  using isEmpty_cases [where rl = builtins and xs = "[Null]" and k = "''a''" and x = "Data Null"
      and ps = "[(''z'', False, Data Null), (''a'', True, Data Null)]" and s = "''x''"]
  by simp

text \<open>
  Claim C6.  For a value that is an object and neither \<open>null\<close> nor an array, \<open>isEmpty\<close>
  looks at the own enumerable keys only.  So a \<open>Map\<close> or a \<open>Set\<close>, whose contents are not
  own enumerable keys, tests as empty whatever it holds.
\<close>

theorem isEmpty_by_own_keys:
  "(typeof v = ''object'' \<and> \<not> eq_null v \<and> \<not> Array_isArray v
      \<longrightarrow> isEmpty rl v = Inr (own_enumerable_keys v = []))
   \<and> (own_enumerable_keys (MapObj entries ps) = [] \<longrightarrow> isEmpty rl (MapObj entries ps) = Inr True)
   \<and> (own_enumerable_keys (SetObj elems ps) = [] \<longrightarrow> isEmpty rl (SetObj elems ps) = Inr True)
   \<and> isEmpty rl (MapObj entries []) = Inr True
   \<and> isEmpty rl (SetObj elems []) = Inr True"
proof -
  have m: "isEmpty rl (MapObj es qs) = Inr (own_enumerable_keys (MapObj es qs) = [])" for es qs
    by (rule isEmpty_object) simp_all
  have t: "isEmpty rl (SetObj es qs) = Inr (own_enumerable_keys (SetObj es qs) = [])" for es qs
    by (rule isEmpty_object) simp_all
  have e: "own_enumerable_keys (MapObj entries []) = []" "own_enumerable_keys (SetObj elems []) = []"
    by (simp_all add: own_enumerable_keys_def)
  show ?thesis
    using isEmpty_object [of v] m [of entries ps] t [of elems ps] m [of entries "[]"] t [of elems "[]"] e
    by simp
qed

theorem isEmpty_by_own_keys_witness:
  "typeof (MapObj [(Str ''k'', Num (Fin 1))] [(''size'', False, Data (Num (Fin 1)))]) = ''object''
   \<and> own_enumerable_keys (MapObj [(Str ''k'', Num (Fin 1))] [(''size'', False, Data (Num (Fin 1)))])
       = []
   \<and> isEmpty builtins (MapObj [(Str ''k'', Num (Fin 1))] [(''size'', False, Data (Num (Fin 1)))])
       = Inr True
   \<and> isEmpty builtins (SetObj [Num (Fin 1), Num (Fin 2)] []) = Inr True"
  using isEmpty_by_own_keys [where rl = builtins
      and v = "MapObj [(Str ''k'', Num (Fin 1))] [(''size'', False, Data (Num (Fin 1)))]"
      and entries = "[(Str ''k'', Num (Fin 1))]" and ps = "[(''size'', False, Data (Num (Fin 1)))]"
      and elems = "[Num (Fin 1), Num (Fin 2)]"]
  by (simp add: own_enumerable_keys_def)

section \<open>Properties of \<open>throttle\<close>\<close>

text \<open>
  Claim C3.  \<open>throttle(f, wait, options)\<close> hands the rate limiter \<open>leading = true\<close> when
  \<open>options.leading\<close> is undefined and \<open>trailing = true\<close> when \<open>options.trailing\<close> is undefined;
  a boolean that is supplied is forwarded unchanged.  The limiter \<open>justThrottle\<close> is arbitrary.
\<close>

theorem throttle_defaults:
  "throttle justThrottle f w \<lparr>leading = None, trailing = None\<rparr>
     = justThrottle f (nullish_or w 0) \<lparr>lim_leading = True, lim_trailing = True\<rparr>
   \<and> throttle justThrottle f w \<lparr>leading = None, trailing = Some b\<rparr>
     = justThrottle f (nullish_or w 0) \<lparr>lim_leading = True, lim_trailing = b\<rparr>
   \<and> throttle justThrottle f w \<lparr>leading = Some a, trailing = None\<rparr>
     = justThrottle f (nullish_or w 0) \<lparr>lim_leading = a, lim_trailing = True\<rparr>
   \<and> throttle justThrottle f w \<lparr>leading = Some a, trailing = Some b\<rparr>
     = justThrottle f (nullish_or w 0) \<lparr>lim_leading = a, lim_trailing = b\<rparr>"
  by (simp add: throttle_def nullish_or_def)

theorem throttle_defaults_witness:
  "throttle (\<lambda>f w c. c) () None \<lparr>leading = None, trailing = None\<rparr>
     = \<lparr>lim_leading = True, lim_trailing = True\<rparr>
   \<and> throttle (\<lambda>f w c. c) () None \<lparr>leading = Some False, trailing = None\<rparr>
     = \<lparr>lim_leading = False, lim_trailing = True\<rparr>"
  using throttle_defaults [of "\<lambda>f w c. c" "()" None True False]
  by simp

section \<open>Properties of \<open>debounce\<close> over the engine of the specification\<close>

lemma snd_call: "snd (call g t a s) = \<lparr>timer = Some (t + p_wait g), buffered = Some a\<rparr>"
  by (simp add: call_def Let_def split_def)

lemma call_pending:
  "timer s = Some d \<Longrightarrow> t < d \<Longrightarrow> fst (call g t a s) = []"
  by (simp add: call_def elapse_def Let_def)

lemma call_elapsed:
  "timer s = Some d \<Longrightarrow> \<not> t < d
   \<Longrightarrow> length (fst (call g t a s))
         \<le> (if p_trailing g then 1 else 0) + (if p_leading g then 1 else 0)"
  by (simp add: call_def elapse_def Let_def idle_def split: option.splits)

lemma call_idle:
  "timer s = None \<Longrightarrow> fst (call g t a s) = (if p_leading g then [(t, a)] else [])"
  by (simp add: call_def elapse_def Let_def)

lemma settle_length: "length (fst (settle g s)) \<le> (if p_trailing g then 1 else 0)"
  by (simp add: settle_def elapse_def split: option.splits)

lemma invocations_from_Nil: "invocations_from g [] s = fst (settle g s)"
  by (simp add: invocations_from_def split_def)

lemma invocations_from_Cons:
  "invocations_from g ((t, a) # cs) s
     = fst (call g t a s) @ invocations_from g cs (snd (call g t a s))"
  by (simp add: invocations_from_def split_def Let_def)

lemma invocations_from_pending:
  "timer s = Some (t0 + p_wait g)
   \<Longrightarrow> length (invocations_from g cs s) + (if p_leading g then 1 else 0)
         \<le> ((if p_leading g then 1 else 0) + (if p_trailing g then 1 else 0))
             * settlings (p_wait g) (t0 # map fst cs)"
proof (induction cs arbitrary: s t0)
  case Nil
  show ?case
    using settle_length [of g s] by (simp add: invocations_from_Nil)
next
  case (Cons c cs)
  obtain t a where c: "c = (t, a)" by (cases c)
  let ?s1 = "snd (call g t a s)"
  let ?k = "(if p_leading g then 1 else 0) + (if p_trailing g then 1 else (0::nat))"
  have "timer ?s1 = Some (t + p_wait g)" by (simp add: snd_call)
  then have ih: "length (invocations_from g cs ?s1) + (if p_leading g then 1 else 0)
      \<le> ?k * settlings (p_wait g) (t # map fst cs)"
    by (rule Cons.IH)
  show ?case
  proof (cases "t < t0 + p_wait g")
    case True
    with Cons.prems have "fst (call g t a s) = []" by (rule call_pending)
    with ih True show ?thesis by (simp add: c invocations_from_Cons)
  next
    case False
    with Cons.prems have "length (fst (call g t a s))
        \<le> (if p_trailing g then 1 else 0) + (if p_leading g then 1 else 0)"
      by (rule call_elapsed)
    with ih False show ?thesis by (simp add: c invocations_from_Cons)
  qed
qed

lemma invocations_le_settlings:
  "length (invocations g cs)
     \<le> ((if p_leading g then 1 else 0) + (if p_trailing g then 1 else 0))
         * settlings (p_wait g) (map fst cs)"
proof (cases cs)
  case Nil
  then show ?thesis
    by (simp add: invocations_def invocations_from_Nil settle_def idle_def)
next
  case (Cons c cs')
  obtain t a where c: "c = (t, a)" by (cases c)
  let ?s1 = "snd (call g t a idle)"
  have "timer ?s1 = Some (t + p_wait g)" by (simp add: snd_call)
  then have "length (invocations_from g cs' ?s1) + (if p_leading g then 1 else 0)
      \<le> ((if p_leading g then 1 else 0) + (if p_trailing g then 1 else 0))
          * settlings (p_wait g) (t # map fst cs')"
    by (rule invocations_from_pending)
  moreover have "fst (call g t a idle) = (if p_leading g then [(t, a)] else [])"
    by (rule call_idle) (simp add: idle_def)
  ultimately show ?thesis
    by (auto simp: Cons c invocations_def invocations_from_Cons split: if_splits)
qed

lemma burst_settlings: "burst w ts \<Longrightarrow> settlings w ts \<le> 1"
  by (induction w ts rule: settlings.induct) auto

lemma debounce_policy:
  "debounce (justDebounce posture) f w opts
     = \<lparr>p_func = f, p_wait = nullish_or w 0, p_leading = (leading opts = Some True),
        p_trailing = posture\<rparr>"
  by (simp add: debounce_def justDebounce_def)

text \<open>
  Claim C1.  Let \<open>g\<close> be the wrapper \<open>debounce(f, wait, options)\<close> over the engine of the
  specification.  Over any trace of calls, \<open>f\<close> is invoked at most once per settling period
  when \<open>options\<close> does not ask for the leading edge (the default), and at most twice per
  settling period when it does, whatever the trailing posture of the engine.  So a single
  burst of calls spaced less than \<open>wait\<close> apart invokes \<open>f\<close> at most once, respectively twice.
\<close>

theorem debounce_invocations_bound:
  "length (invocations (debounce (justDebounce posture) f w opts) cs)
     \<le> (if leading opts = Some True then 2 else 1) * settlings (nullish_or w 0) (map fst cs)
   \<and> (burst (nullish_or w 0) (map fst cs)
        \<longrightarrow> length (invocations (debounce (justDebounce posture) f w opts) cs)
              \<le> (if leading opts = Some True then 2 else 1))"
proof -
  let ?g = "debounce (justDebounce posture) f w opts"
  let ?n = "settlings (nullish_or w 0) (map fst cs)"
  have "length (invocations ?g cs)
      \<le> ((if p_leading ?g then 1 else 0) + (if p_trailing ?g then 1 else 0))
          * settlings (p_wait ?g) (map fst cs)"
    by (rule invocations_le_settlings)
  then have "length (invocations ?g cs)
      \<le> ((if leading opts = Some True then 1 else 0) + (if posture then 1 else 0)) * ?n"
    by (simp add: debounce_policy)
  moreover have "((if leading opts = Some True then 1 else 0) + (if posture then 1 else 0)) * ?n
      \<le> (if leading opts = Some True then 2 else 1) * ?n"
    by (rule mult_le_mono1) simp
  ultimately have a: "length (invocations ?g cs) \<le> (if leading opts = Some True then 2 else 1) * ?n"
    by (rule le_trans)
  have "burst (nullish_or w 0) (map fst cs)
        \<longrightarrow> length (invocations ?g cs) \<le> (if leading opts = Some True then 2 else 1)"
  proof
    assume "burst (nullish_or w 0) (map fst cs)"
    then have "?n \<le> 1" by (rule burst_settlings)
    with a show "length (invocations ?g cs) \<le> (if leading opts = Some True then 2 else 1)"
      by (auto split: if_splits)
  qed
  with a show ?thesis by blast
qed

lemma invocations_example:
  "invocations (debounce (justDebounce True) () (Some 10) \<lparr>leading = Some True, trailing = Some True\<rparr>)
      [(0, ''a''), (5, ''b''), (9, ''c'')] = [(0, ''a''), (19, ''c'')]"
  by (simp add: debounce_policy invocations_def invocations_from_def settle_def call_def
      elapse_def idle_def nullish_or_def Let_def)

theorem debounce_invocations_bound_witness:
  "burst (nullish_or (Some 10) 0) (map fst [(0 :: nat, ''a''), (5, ''b''), (9, ''c'')])
   \<and> invocations
        (debounce (justDebounce True) () (Some 10) \<lparr>leading = Some True, trailing = Some True\<rparr>)
        [(0, ''a''), (5, ''b''), (9, ''c'')] = [(0, ''a''), (19, ''c'')]
   \<and> length (invocations
        (debounce (justDebounce True) () (Some 10) \<lparr>leading = Some True, trailing = Some True\<rparr>)
        [(0, ''a''), (5, ''b''), (9, ''c'')]) \<le> 2"
proof -
  have b: "burst (nullish_or (Some 10) 0) (map fst [(0 :: nat, ''a''), (5, ''b''), (9, ''c'')])"
    by (simp add: nullish_or_def)
  from b invocations_example
    debounce_invocations_bound [of True "()" "Some 10"
      "\<lparr>leading = Some True, trailing = Some True\<rparr>" "[(0, ''a''), (5, ''b''), (9, ''c'')]"]
  show ?thesis by simp
qed



section \<open>Which helpers raise, and when\<close>

























end
